theory Spec2Isabelle
  imports Complex_Main
begin

section \<open>Decision-tree induction (tree.py)\<close>

text \<open>
  A shallow embedding of \<^verbatim>\<open>tree.py\<close>: the \<^verbatim>\<open>Node\<close>/\<^verbatim>\<open>Leaf\<close> classes and the nested
  functions of \<^verbatim>\<open>learn_decision_tree\<close>.

  \<^item> An example is a csv row: a list of strings.
  \<^item> Attribute indexes come from \<^verbatim>\<open>list.index\<close>, so they are natural numbers; counters
    start at 0 and are only incremented, so they are natural numbers too. The depth is an
    arbitrary Python integer (the caller may pass a negative one).
  \<^item> Every Python exception the code can raise is a value of \<open>py_error\<close>; a function that
    may raise returns \<open>py_error + 'a\<close> and the first error ends the run, as an uncaught
    exception does.
  \<^item> Python floats are idealised as real numbers (\<^verbatim>\<open>math.log(p, 2)\<close> is \<open>log 2 p\<close>).
    The shape of the induced tree depends on the gains only through the attribute that
    \<^verbatim>\<open>argmax\<close> returns. Where two gains are equal as reals and differ after rounding in
    double precision, \<^verbatim>\<open>argmax\<close> of the code may return another attribute than the one of
    this model; the theorems below about induced trees hold for whichever attribute is
    chosen, or are about a single candidate attribute.
\<close>

subsection \<open>Python primitives\<close>

datatype py_error = IndexError | KeyError | ZeroDivisionError | ValueError

type_synonym example = "string list"

text \<open>\<^verbatim>\<open>xs[i]\<close> for a non-negative index: IndexError out of range.\<close>

definition get_item :: "'a list \<Rightarrow> nat \<Rightarrow> py_error + 'a" where
  "get_item xs i = (if i < length xs then Inr (xs ! i) else Inl IndexError)"

text \<open>\<^verbatim>\<open>str.lower()\<close>: the letters A to Z are mapped to a to z. Strings are byte strings here;
  no character outside ASCII lowers to a letter of \<^verbatim>\<open>republican\<close>.\<close>

definition lower_char :: "char \<Rightarrow> char" where
  "lower_char c =
     (if 65 \<le> (of_char c :: nat) \<and> (of_char c :: nat) \<le> 90
      then char_of ((of_char c :: nat) + 32) else c)"

definition lower :: "string \<Rightarrow> string" where
  "lower s = map lower_char s"

text \<open>\<^verbatim>\<open>xs.index(x)\<close>: position of the first element equal to \<open>x\<close>, ValueError if there is none.\<close>

fun list_index :: "'a list \<Rightarrow> 'a \<Rightarrow> py_error + nat" where
  "list_index [] x = Inl ValueError"
| "list_index (y # ys) x =
     (if y = x then Inr 0
      else case list_index ys x of Inl e \<Rightarrow> Inl e | Inr i \<Rightarrow> Inr (Suc i))"

text \<open>\<^verbatim>\<open>xs.remove(x)\<close>: drops the first element equal to \<open>x\<close>, ValueError if there is none.\<close>

fun list_remove :: "'a list \<Rightarrow> 'a \<Rightarrow> py_error + 'a list" where
  "list_remove [] x = Inl ValueError"
| "list_remove (y # ys) x =
     (if y = x then Inr ys
      else case list_remove ys x of Inl e \<Rightarrow> Inl e | Inr zs \<Rightarrow> Inr (y # zs))"

lemma list_remove_length:
  "list_remove xs x = Inr ys \<Longrightarrow> length ys < length xs"
  by (induction xs arbitrary: ys) (auto split: if_splits sum.splits)

text \<open>\<^verbatim>\<open>max(xs)\<close>: ValueError on the empty list.\<close>

fun py_max :: "real list \<Rightarrow> py_error + real" where
  "py_max [] = Inl ValueError"
| "py_max (x # xs) = Inr (fold (\<lambda>y m. if m < y then y else m) xs x)"

text \<open>\<^verbatim>\<open>f"vote{A}"\<close> needs the decimal digits of \<open>A\<close>.\<close>

definition digit_char :: "nat \<Rightarrow> char" where
  "digit_char d = char_of (48 + d)"

function str_nat :: "nat \<Rightarrow> string" where
  "str_nat n = (if n < 10 then [digit_char n] else str_nat (n div 10) @ [digit_char (n mod 10)])"
  by pat_completeness auto
termination
  by (relation "measure (\<lambda>n. n)") auto

declare str_nat.simps [simp del]

subsection \<open>The tree: classes Node and Leaf\<close>

text \<open>A \<^verbatim>\<open>Node\<close> has \<^verbatim>\<open>test_attr\<close>, \<^verbatim>\<open>test_name\<close> and the dictionary \<^verbatim>\<open>children\<close>, kept as an
  association list in insertion order. A \<^verbatim>\<open>Leaf\<close> has \<^verbatim>\<open>pred_class\<close>.\<close>

datatype tree = Leaf string | Node nat string "(string \<times> tree) list"

text \<open>\<^verbatim>\<open>d[k]\<close>: KeyError when the key is absent.\<close>

definition dict_get :: "('k \<times> 'v) list \<Rightarrow> 'k \<Rightarrow> py_error + 'v" where
  "dict_get d k = (case map_of d k of None \<Rightarrow> Inl KeyError | Some v \<Rightarrow> Inr v)"

text \<open>\<^verbatim>\<open>d[k] = v\<close>: replaces the value of an existing key in place, appends a new key.\<close>

fun dict_set :: "('k \<times> 'v) list \<Rightarrow> 'k \<Rightarrow> 'v \<Rightarrow> ('k \<times> 'v) list" where
  "dict_set [] k v = [(k, v)]"
| "dict_set (p # ps) k v = (if fst p = k then (k, v) # ps else p # dict_set ps k v)"

text \<open>\<^verbatim>\<open>Node.__init__\<close>: \<^verbatim>\<open>test_name or test_attr\<close> is the name unless it is empty (the
  attribute index is rendered where the name is empty).\<close>

definition new_Node :: "nat \<Rightarrow> string \<Rightarrow> tree" where
  "new_Node test_attr test_name =
     Node test_attr (if test_name = [] then str_nat test_attr else test_name) []"

text \<open>\<^verbatim>\<open>Node.add_child\<close> is a method of \<^verbatim>\<open>Node\<close> only: there is no equation for a leaf.\<close>

fun add_child :: "tree \<Rightarrow> string \<Rightarrow> tree \<Rightarrow> tree" where
  "add_child (Node test_attr test_name children) val subtree =
     Node test_attr test_name (dict_set children val subtree)"

text \<open>A child found in the dictionary is smaller than the node.\<close>

lemma map_of_size_tree:
  "map_of children val = Some subtree \<Longrightarrow>
     size subtree < Suc (size_list (size_prod (\<lambda>_. 0) size) children)"
  by (induction children) (auto split: if_splits)

text \<open>\<^verbatim>\<open>Node.classify\<close> and \<^verbatim>\<open>Leaf.classify\<close>: the example's value at the test attribute is
  read first (IndexError on a short row), then looked up in \<^verbatim>\<open>children\<close> (KeyError).\<close>

function classify :: "tree \<Rightarrow> example \<Rightarrow> py_error + string" where
  "classify (Leaf pred_class) example = Inr pred_class"
| "classify (Node test_attr test_name children) example =
     (case get_item example test_attr of
        Inl e \<Rightarrow> Inl e
      | Inr val \<Rightarrow>
          (case dict_get children val of
             Inl e \<Rightarrow> Inl e
           | Inr subtree \<Rightarrow> classify subtree example))"
  by pat_completeness auto

termination
  by (relation "measure (\<lambda>(t, example). size t)")
     (auto simp: dict_get_def split: option.splits dest: map_of_size_tree)

subsection \<open>The nested functions of learn\_decision\_tree\<close>

text \<open>The closure variable \<^verbatim>\<open>target\<close> is the first parameter of every function that reads it.\<close>

text \<open>The counting loop that \<^verbatim>\<open>same_classification\<close>, \<^verbatim>\<open>plurality_value\<close> and \<^verbatim>\<open>entropy\<close>
  each start with: the state is the pair of counters \<^verbatim>\<open>republicans\<close>, \<^verbatim>\<open>democrats\<close>.\<close>

fun count_classes :: "nat \<Rightarrow> example list \<Rightarrow> nat \<Rightarrow> nat \<Rightarrow> py_error + (nat \<times> nat)" where
  "count_classes target [] republicans democrats = Inr (republicans, democrats)"
| "count_classes target (exs # examples) republicans democrats =
     (case get_item exs target of
        Inl e \<Rightarrow> Inl e
      | Inr val \<Rightarrow>
          if lower val = ''republican''
          then count_classes target examples (republicans + 1) democrats
          else count_classes target examples republicans (democrats + 1))"

definition same_classification :: "nat \<Rightarrow> example list \<Rightarrow> py_error + tree option" where
  "same_classification target examples =
     (case count_classes target examples 0 0 of
        Inl e \<Rightarrow> Inl e
      | Inr (republicans, democrats) \<Rightarrow>
          if republicans = 0 then Inr (Some (Leaf ''Democrats''))
          else if democrats = 0 then Inr (Some (Leaf ''Republicans''))
          else Inr None)"

definition plurality_value :: "nat \<Rightarrow> example list \<Rightarrow> py_error + tree" where
  "plurality_value target examples =
     (case count_classes target examples 0 0 of
        Inl e \<Rightarrow> Inl e
      | Inr (republicans, democrats) \<Rightarrow>
          Inr (if democrats \<ge> republicans then Leaf ''Democrats'' else Leaf ''Republicans''))"

definition entropy :: "nat \<Rightarrow> example list \<Rightarrow> py_error + real" where
  "entropy target examples =
     (case count_classes target examples 0 0 of
        Inl e \<Rightarrow> Inl e
      | Inr (republicans, democrats) \<Rightarrow>
          (let total = republicans + democrats in
           if total = 0 then Inl ZeroDivisionError
           else
             (let p_republicans = real republicans / real total;
                  p_democrats = real democrats / real total;
                  log_dems = (if p_democrats \<noteq> 0 then log 2 p_democrats else 0);
                  log_reps = (if p_republicans \<noteq> 0 then log 2 p_republicans else 0)
              in Inr (- p_democrats * log_dems - p_republicans * log_reps))))"

text \<open>The loop of \<^verbatim>\<open>information_gain\<close>, with the accumulator \<^verbatim>\<open>e_children\<close>. The quotient
  \<^verbatim>\<open>len(child)/len(parent)\<close> is evaluated before \<^verbatim>\<open>entropy(child)\<close>.\<close>

fun information_gain_loop ::
  "nat \<Rightarrow> example list \<Rightarrow> example list list \<Rightarrow> real \<Rightarrow> py_error + real" where
  "information_gain_loop target parent [] e_children = Inr e_children"
| "information_gain_loop target parent (child # children) e_children =
     (if length child = 0 then information_gain_loop target parent children e_children
      else if length parent = 0 then Inl ZeroDivisionError
      else case entropy target child of
             Inl e \<Rightarrow> Inl e
           | Inr h \<Rightarrow>
               information_gain_loop target parent children
                 (e_children + real (length child) / real (length parent) * h))"

definition information_gain :: "nat \<Rightarrow> example list \<Rightarrow> example list list \<Rightarrow> py_error + real" where
  "information_gain target parent children =
     (case information_gain_loop target parent children 0 of
        Inl e \<Rightarrow> Inl e
      | Inr e_children \<Rightarrow>
          (case entropy target parent of
             Inl e \<Rightarrow> Inl e
           | Inr h \<Rightarrow> Inr (h - e_children)))"

text \<open>The loop of \<^verbatim>\<open>split\<close>, with the two lists it appends to.\<close>

fun split_loop ::
  "nat \<Rightarrow> example list \<Rightarrow> example list \<Rightarrow> example list \<Rightarrow> py_error + example list list" where
  "split_loop attribute [] yes_examples no_examples = Inr [yes_examples, no_examples]"
| "split_loop attribute (exs # examples) yes_examples no_examples =
     (case get_item exs attribute of
        Inl e \<Rightarrow> Inl e
      | Inr val \<Rightarrow>
          if val = ''Yea'' \<or> val = ''Present''
          then split_loop attribute examples (yes_examples @ [exs]) no_examples
          else split_loop attribute examples yes_examples (no_examples @ [exs]))"

definition split :: "nat \<Rightarrow> example list \<Rightarrow> py_error + example list list" where
  "split attribute examples = split_loop attribute examples [] []"

text \<open>The loop of \<^verbatim>\<open>argmax\<close>, with the list \<^verbatim>\<open>entropy_attr\<close> it appends to.\<close>

fun argmax_loop ::
  "nat \<Rightarrow> nat list \<Rightarrow> example list \<Rightarrow> real list \<Rightarrow> py_error + real list" where
  "argmax_loop target [] examples entropy_attr = Inr entropy_attr"
| "argmax_loop target (attribute # attributes) examples entropy_attr =
     (case split attribute examples of
        Inl e \<Rightarrow> Inl e
      | Inr parts \<Rightarrow>
          (case information_gain target examples parts of
             Inl e \<Rightarrow> Inl e
           | Inr g \<Rightarrow> argmax_loop target attributes examples (entropy_attr @ [g])))"

definition argmax :: "nat \<Rightarrow> nat list \<Rightarrow> example list \<Rightarrow> py_error + nat" where
  "argmax target attributes examples =
     (case argmax_loop target attributes examples [] of
        Inl e \<Rightarrow> Inl e
      | Inr entropy_attr \<Rightarrow>
          (case py_max entropy_attr of
             Inl e \<Rightarrow> Inl e
           | Inr m \<Rightarrow>
               (case list_index entropy_attr m of
                  Inl e \<Rightarrow> Inl e
                | Inr i \<Rightarrow> get_item attributes i)))"

text \<open>\<^verbatim>\<open>decision_tree_learning\<close>. The loop \<^verbatim>\<open>for v in [0, 1]\<close> is written out: the iteration
  for \<^verbatim>\<open>v = 0\<close> adds the child \<^verbatim>\<open>"Yea"\<close>, the one for \<^verbatim>\<open>v = 1\<close> the child \<^verbatim>\<open>"Nay"\<close>. Each
  iteration calls \<^verbatim>\<open>split\<close> again and removes \<^verbatim>\<open>A\<close> from a fresh copy of \<^verbatim>\<open>attrs\<close>.\<close>

function decision_tree_learning ::
  "nat \<Rightarrow> example list \<Rightarrow> nat list \<Rightarrow> example list \<Rightarrow> int \<Rightarrow> py_error + tree" where
  "decision_tree_learning target examples attrs parent_examples depth =
     (if depth = 0 then plurality_value target examples
      else if length examples = 0 then plurality_value target parent_examples
      else
        (case same_classification target examples of
           Inl e \<Rightarrow> Inl e
         | Inr (Some leaf) \<Rightarrow> Inr leaf
         | Inr None \<Rightarrow>
             if length attrs = 0 then plurality_value target examples
             else
               (case argmax target attrs examples of
                  Inl e \<Rightarrow> Inl e
                | Inr A \<Rightarrow>
                    (case split A examples of
                       Inl e \<Rightarrow> Inl e
                     | Inr parts0 \<Rightarrow>
                    (case get_item parts0 0 of
                       Inl e \<Rightarrow> Inl e
                     | Inr exs0 \<Rightarrow>
                    (case list_remove attrs A of
                       Inl e \<Rightarrow> Inl e
                     | Inr temp_attrs0 \<Rightarrow>
                    (case decision_tree_learning target exs0 temp_attrs0 examples (depth - 1) of
                       Inl e \<Rightarrow> Inl e
                     | Inr subtree0 \<Rightarrow>
                    (case split A examples of
                       Inl e \<Rightarrow> Inl e
                     | Inr parts1 \<Rightarrow>
                    (case get_item parts1 1 of
                       Inl e \<Rightarrow> Inl e
                     | Inr exs1 \<Rightarrow>
                    (case list_remove attrs A of
                       Inl e \<Rightarrow> Inl e
                     | Inr temp_attrs1 \<Rightarrow>
                    (case decision_tree_learning target exs1 temp_attrs1 examples (depth - 1) of
                       Inl e \<Rightarrow> Inl e
                     | Inr subtree1 \<Rightarrow>
                         Inr (add_child
                                (add_child (new_Node A (''vote'' @ str_nat A)) ''Yea'' subtree0)
                                ''Nay'' subtree1))))))))))))"
  by pat_completeness auto

termination
  by (relation "measure (\<lambda>(target, examples, attrs, parent_examples, depth). length attrs)")
     (auto dest: list_remove_length)

declare decision_tree_learning.simps [simp del]

subsection \<open>The entry point\<close>

record DataSet =
  attributes :: "string list"
  examples :: "example list"
  domains :: "string list list"

text \<open>The comprehension \<^verbatim>\<open>[dataset.attributes.index(name) for name in feature_names]\<close>.\<close>

fun feature_indexes :: "string list \<Rightarrow> string list \<Rightarrow> py_error + nat list" where
  "feature_indexes attribute_names [] = Inr []"
| "feature_indexes attribute_names (name # feature_names) =
     (case list_index attribute_names name of
        Inl e \<Rightarrow> Inl e
      | Inr i \<Rightarrow>
          (case feature_indexes attribute_names feature_names of
             Inl e \<Rightarrow> Inl e
           | Inr is \<Rightarrow> Inr (i # is)))"

text \<open>\<^verbatim>\<open>learn_decision_tree\<close>: the default \<^verbatim>\<open>parent_examples=()\<close> is the empty list.\<close>

definition learn_decision_tree ::
  "DataSet \<Rightarrow> string \<Rightarrow> string list \<Rightarrow> int \<Rightarrow> py_error + tree" where
  "learn_decision_tree dataset target_name feature_names depth_limit =
     (case list_index (attributes dataset) target_name of
        Inl e \<Rightarrow> Inl e
      | Inr target \<Rightarrow>
          (case feature_indexes (attributes dataset) feature_names of
             Inl e \<Rightarrow> Inl e
           | Inr features \<Rightarrow>
               decision_tree_learning target (DataSet.examples dataset) features [] depth_limit))"

subsection \<open>Notions of the specification\<close>

text \<open>The binarized class of an example: it matches the reference class when its target
  value, lower-cased, is \<^verbatim>\<open>republican\<close>; every other value is the other class.\<close>

definition is_republican :: "nat \<Rightarrow> example \<Rightarrow> bool" where
  "is_republican target exs = (lower (exs ! target) = ''republican'')"

definition republican_count :: "nat \<Rightarrow> example list \<Rightarrow> nat" where
  "republican_count target es = length (filter (is_republican target) es)"

definition democrat_count :: "nat \<Rightarrow> example list \<Rightarrow> nat" where
  "democrat_count target es = length (filter (\<lambda>exs. \<not> is_republican target exs) es)"

text \<open>The affirmative tokens of the splitter.\<close>

definition is_affirmative :: "nat \<Rightarrow> example \<Rightarrow> bool" where
  "is_affirmative attribute exs = (exs ! attribute = ''Yea'' \<or> exs ! attribute = ''Present'')"

text \<open>The nodes that classification visits, from the root down: the walk stops at a leaf,
  at a node whose test attribute the example does not have, and at a node without a child
  for the example's value.\<close>

function visited :: "tree \<Rightarrow> example \<Rightarrow> tree list" where
  "visited (Leaf pred_class) example = [Leaf pred_class]"
| "visited (Node test_attr test_name children) example =
     Node test_attr test_name children #
       (case get_item example test_attr of
          Inl e \<Rightarrow> []
        | Inr val \<Rightarrow>
            (case map_of children val of
               None \<Rightarrow> []
             | Some subtree \<Rightarrow> visited subtree example))"
  by pat_completeness auto
termination
  by (relation "measure (\<lambda>(t, example). size t)") (auto dest: map_of_size_tree)

text \<open>Some visited node has no child under the example's value at its test attribute.\<close>

definition unseen_branch :: "tree \<Rightarrow> example \<Rightarrow> bool" where
  "unseen_branch t example =
     (\<exists>test_attr test_name children val.
        Node test_attr test_name children \<in> set (visited t example)
        \<and> get_item example test_attr = Inr val
        \<and> val \<notin> fst ` set children)"

text \<open>Every node of the tree has exactly the two children \<^verbatim>\<open>"Yea"\<close> and \<^verbatim>\<open>"Nay"\<close>.\<close>

fun two_children :: "tree \<Rightarrow> bool" where
  "two_children (Leaf c) = True"
| "two_children (Node test_attr test_name children) =
     (map fst children = [''Yea'', ''Nay''] \<and> list_all (\<lambda>p. two_children (snd p)) children)"

text \<open>The leaf that the training split routes an example to: at a node, the child
  \<^verbatim>\<open>"Yea"\<close> for an example of the affirmative partition, the child \<^verbatim>\<open>"Nay"\<close> for the others.
  The attributes that a tree tests.\<close>

function routed_leaf :: "tree \<Rightarrow> example \<Rightarrow> py_error + string" where
  "routed_leaf (Leaf pred_class) example = Inr pred_class"
| "routed_leaf (Node test_attr test_name children) example =
     (case dict_get children (if is_affirmative test_attr example then ''Yea'' else ''Nay'') of
        Inl e \<Rightarrow> Inl e
      | Inr subtree \<Rightarrow> routed_leaf subtree example)"
  by pat_completeness auto
termination
  by (relation "measure (\<lambda>(t, example). size t)")
     (auto simp: dict_get_def split: option.splits dest: map_of_size_tree)

fun tested_attrs :: "tree \<Rightarrow> nat set" where
  "tested_attrs (Leaf pred_class) = {}"
| "tested_attrs (Node test_attr test_name children) =
     insert test_attr (\<Union>p \<in> set children. tested_attrs (snd p))"

text \<open>The entropy of the specification, \<open>- p0 * log2 p0 - p1 * log2 p1\<close> with
  \<open>0 * log2 0 = 0\<close>, over the binarized class counts, and the sum of the weighted entropies
  of the non-empty partitions. Both are in exact (real) arithmetic.\<close>

definition plogp :: "real \<Rightarrow> real" where
  "plogp p = (if p = 0 then 0 else p * log 2 p)"

definition binary_entropy :: "nat \<Rightarrow> example list \<Rightarrow> real" where
  "binary_entropy target es =
     (let p0 = real (republican_count target es) / real (length es);
          p1 = real (democrat_count target es) / real (length es)
      in - plogp p0 - plogp p1)"

definition weighted_entropies :: "nat \<Rightarrow> example list \<Rightarrow> example list list \<Rightarrow> real" where
  "weighted_entropies target parent partitions =
     (\<Sum>child \<leftarrow> filter (\<lambda>c. c \<noteq> []) partitions.
        real (length child) / real (length parent) * binary_entropy target child)"

text \<open>The dataset of the scenario with the single feature \<^verbatim>\<open>voteX\<close>, and a dataset in which
  one training row has the value \<^verbatim>\<open>Present\<close>.\<close>

definition voteX_dataset :: DataSet where
  "voteX_dataset =
     \<lparr> attributes = [''voteX'', ''class''],
       examples = [[''Yea'', ''republican''], [''Yea'', ''democrat''],
                   [''Nay'', ''republican''], [''Nay'', ''democrat'']],
       domains = [[''Yea'', ''Nay''], [''republican'', ''democrat'']] \<rparr>"

definition present_dataset :: DataSet where
  "present_dataset =
     \<lparr> attributes = [''vote0'', ''class''],
       examples = [[''Present'', ''republican''], [''Nay'', ''democrat'']],
       domains = [[''Present'', ''Nay''], [''republican'', ''democrat'']] \<rparr>"

section \<open>Properties\<close>

subsection \<open>Evaluation of the string primitives\<close>

lemma lower_republican: "lower ''republican'' = ''republican''"
  by code_simp

lemma lower_democrat: "lower ''democrat'' \<noteq> ''republican''"
  by code_simp

lemma str_nat_0: "str_nat 0 = ''0''"
  by code_simp

subsection \<open>The counting loop and the splitter\<close>

lemma count_classes_counts:
  "\<forall>exs \<in> set es. target < length exs \<Longrightarrow>
     count_classes target es r d =
       Inr (r + republican_count target es, d + democrat_count target es)"
  by (induction es arbitrary: r d)
     (simp_all add: get_item_def republican_count_def democrat_count_def is_republican_def)

lemma count_classes_total:
  "count_classes target es r d = Inr (r', d') \<Longrightarrow> r' + d' = r + d + length es"
  by (induction es arbitrary: r d) (auto simp: get_item_def split: if_splits)

lemma count_classes_error:
  "count_classes target es r d = Inl e \<Longrightarrow> e = IndexError"
  by (induction es arbitrary: r d) (auto simp: get_item_def split: if_splits)

lemma count_classes_rows:
  "count_classes target es r d = Inr c \<Longrightarrow> \<forall>exs \<in> set es. target < length exs"
  by (induction es arbitrary: r d) (auto simp: get_item_def split: if_splits)

lemma split_loop_filter:
  "\<forall>exs \<in> set es. attribute < length exs \<Longrightarrow>
     split_loop attribute es yes no =
       Inr [yes @ filter (is_affirmative attribute) es,
            no @ filter (\<lambda>exs. \<not> is_affirmative attribute exs) es]"
  by (induction es arbitrary: yes no) (simp_all add: get_item_def is_affirmative_def)

lemma split_loop_error:
  "split_loop attribute es yes no = Inl e \<Longrightarrow> e = IndexError"
  by (induction es arbitrary: yes no) (auto simp: get_item_def split: if_splits)

lemma split_loop_rows:
  "split_loop attribute es yes no = Inr parts \<Longrightarrow> \<forall>exs \<in> set es. attribute < length exs"
  by (induction es arbitrary: yes no) (auto simp: get_item_def split: if_splits)

lemma split_Inr:
  assumes "split attribute es = Inr parts"
  shows "parts = [filter (is_affirmative attribute) es,
                  filter (\<lambda>exs. \<not> is_affirmative attribute exs) es]"
    and "\<forall>exs \<in> set es. attribute < length exs"
proof -
  show rows: "\<forall>exs \<in> set es. attribute < length exs"
    using assms by (auto simp: split_def dest: split_loop_rows)
  show "parts = [filter (is_affirmative attribute) es,
                 filter (\<lambda>exs. \<not> is_affirmative attribute exs) es]"
    using assms split_loop_filter [OF rows, of "[]" "[]"] by (simp add: split_def)
qed

text \<open>
  \<^bold>\<open>C6.\<close> When every row has the target column, \<^verbatim>\<open>plurality_value\<close> returns
  \<^verbatim>\<open>Leaf("Republicans")\<close> if the examples of the reference class are strictly more than the
  others, and \<^verbatim>\<open>Leaf("Democrats")\<close> otherwise: when the others are strictly more, and when
  the two counts are equal, which includes the empty list.
\<close>

theorem plurality_value_tie_policy:
  assumes "\<forall>exs \<in> set es. target < length exs"
  shows "plurality_value target es =
           Inr (if democrat_count target es < republican_count target es
                then Leaf ''Republicans'' else Leaf ''Democrats'')"
  using count_classes_counts [OF assms, of 0 0]
  by (simp add: plurality_value_def)

theorem plurality_value_tie_policy_witness:
  "republican_count 0 [[''republican''], [''democrat'']]
       = democrat_count 0 [[''republican''], [''democrat'']]
   \<and> plurality_value 0 [[''republican''], [''democrat'']] = Inr (Leaf ''Democrats'')
   \<and> plurality_value 0 [] = Inr (Leaf ''Democrats'')
   \<and> plurality_value 0 [[''republican''], [''democrat''], [''republican'']]
       = Inr (Leaf ''Republicans'')"
  using plurality_value_tie_policy [of "[[''republican''], [''democrat'']]" 0]
    plurality_value_tie_policy [of "[]" 0]
    plurality_value_tie_policy [of "[[''republican''], [''democrat''], [''republican'']]" 0]
  by (simp add: republican_count_def democrat_count_def is_republican_def
      lower_republican lower_democrat)

text \<open>
  \<^bold>\<open>C7.\<close> When every row has the column \<open>attribute\<close>, \<^verbatim>\<open>split\<close> returns the two-element list
  whose first element holds exactly the examples with value \<^verbatim>\<open>"Yea"\<close> or \<^verbatim>\<open>"Present"\<close> and
  whose second element holds all the others, both in the order of the input.
\<close>

theorem split_groups:
  assumes "\<forall>exs \<in> set es. attribute < length exs"
  shows "split attribute es =
           Inr [filter (is_affirmative attribute) es,
                filter (\<lambda>exs. \<not> is_affirmative attribute exs) es]"
  using split_loop_filter [OF assms, of "[]" "[]"] by (simp add: split_def)

text \<open>On the values \<^verbatim>\<open>["Yea", "Present", "Nay", "Absent"]\<close> both groups have size 2.\<close>

theorem split_groups_witness:
  "split 0 [[''Yea''], [''Present''], [''Nay''], [''Absent'']]
       = Inr [[[''Yea''], [''Present'']], [[''Nay''], [''Absent'']]]
   \<and> length [[''Yea''], [''Present'']] = 2 \<and> length [[''Nay''], [''Absent'']] = 2"
  using split_groups [of "[[''Yea''], [''Present''], [''Nay''], [''Absent'']]" 0]
  by (simp add: is_affirmative_def)

subsection \<open>The depth limit\<close>

lemma depth_zero_unfold:
  "decision_tree_learning target es attrs parent_examples 0 = plurality_value target es"
  by (simp add: decision_tree_learning.simps)

lemma plurality_value_by_counts:
  assumes "\<forall>exs \<in> set es. target < length exs"
  shows "plurality_value target es =
           Inr (if democrat_count target es < republican_count target es
                then Leaf ''Republicans'' else Leaf ''Democrats'')"
  using count_classes_counts [OF assms, of 0 0]
  by (simp add: plurality_value_def)

text \<open>
  \<^bold>\<open>C2.\<close> The test \<^verbatim>\<open>depth == 0\<close> comes first. With depth 0 and rows that have the target
  column, \<^verbatim>\<open>decision_tree_learning\<close> returns the plurality leaf of the whole example list,
  whatever the attribute list and the parent list are and whether the example list is empty
  or not: \<^verbatim>\<open>Leaf("Republicans")\<close> when the examples of the reference class are strictly
  more than the others, \<^verbatim>\<open>Leaf("Democrats")\<close> otherwise. The result is the one of
  \<^verbatim>\<open>plurality_value(examples)\<close> and never a \<^verbatim>\<open>Node\<close>.
\<close>

theorem depth_zero_returns_plurality_leaf:
  assumes "\<forall>exs \<in> set es. target < length exs"
  shows "decision_tree_learning target es attrs parent_examples 0 =
           Inr (if democrat_count target es < republican_count target es
                then Leaf ''Republicans'' else Leaf ''Democrats'')
         \<and> decision_tree_learning target es attrs parent_examples 0 = plurality_value target es
         \<and> (\<forall>test_attr test_name children.
              decision_tree_learning target es attrs parent_examples 0
                \<noteq> Inr (Node test_attr test_name children))"
proof -
  note unfold = depth_zero_unfold [of target es attrs parent_examples]
  note leaf = plurality_value_by_counts [OF assms]
  have "decision_tree_learning target es attrs parent_examples 0 =
           Inr (if democrat_count target es < republican_count target es
                then Leaf ''Republicans'' else Leaf ''Democrats'')"
    using unfold leaf by simp
  moreover from this
  have "\<forall>test_attr test_name children.
          decision_tree_learning target es attrs parent_examples 0
            \<noteq> Inr (Node test_attr test_name children)"
    by simp
  ultimately show ?thesis using unfold by simp
qed

text \<open>A non-empty dataset with a candidate attribute that would split it: two republicans
  and one democrat give \<^verbatim>\<open>Leaf("Republicans")\<close>; one of each gives \<^verbatim>\<open>Leaf("Democrats")\<close>.\<close>

theorem depth_zero_returns_plurality_leaf_witness:
  "republican_count 1 [[''Yea'', ''republican''], [''Nay'', ''republican''], [''Nay'', ''democrat'']]
     = 2
   \<and> democrat_count 1 [[''Yea'', ''republican''], [''Nay'', ''republican''], [''Nay'', ''democrat'']]
     = 1
   \<and> decision_tree_learning 1
       [[''Yea'', ''republican''], [''Nay'', ''republican''], [''Nay'', ''democrat'']] [0] [] 0
     = Inr (Leaf ''Republicans'')
   \<and> decision_tree_learning 1 [[''Yea'', ''republican''], [''Nay'', ''democrat'']] [0] [] 0
     = Inr (Leaf ''Democrats'')"
  using depth_zero_returns_plurality_leaf
      [of "[[''Yea'', ''republican''], [''Nay'', ''republican''], [''Nay'', ''democrat'']]"
          1 "[0]" "[]"]
    depth_zero_returns_plurality_leaf
      [of "[[''Yea'', ''republican''], [''Nay'', ''democrat'']]" 1 "[0]" "[]"]
  by (simp add: republican_count_def democrat_count_def is_republican_def
      lower_republican lower_democrat)

subsection \<open>Classification\<close>

lemma classify_KeyError_iff:
  "classify t example = Inl KeyError \<longleftrightarrow> unseen_branch t example"
  unfolding unseen_branch_def
proof (induction t example rule: classify.induct)
  case (1 pred_class example)
  then show ?case by simp
next
  case (2 test_attr test_name children example)
  show ?case
  proof (cases "get_item example test_attr")
    case (Inl e)
    then show ?thesis by (auto simp: get_item_def split: if_splits)
  next
    case (Inr val)
    show ?thesis
    proof (cases "map_of children val")
      case None
      then have "val \<notin> fst ` set children" by (simp add: map_of_eq_None_iff)
      with Inr None show ?thesis by (auto simp: dict_get_def)
    next
      case (Some subtree)
      then have in_dom: "val \<in> fst ` set children"
        by (metis map_of_eq_None_iff option.distinct(1))
      have sub: "dict_get children val = Inr subtree" using Some by (simp add: dict_get_def)
      from "2.IH" [OF Inr sub] Inr Some sub in_dom show ?thesis by (auto simp: image_iff)
    qed
  qed
qed

lemma classify_Inr_iff:
  "classify t example = Inr c \<longleftrightarrow> last (visited t example) = Leaf c"
proof (induction t example rule: classify.induct)
  case (1 pred_class example)
  then show ?case by auto
next
  case (2 test_attr test_name children example)
  show ?case
  proof (cases "get_item example test_attr")
    case (Inl e)
    then show ?thesis by simp
  next
    case (Inr val)
    show ?thesis
    proof (cases "map_of children val")
      case None
      with Inr show ?thesis by (simp add: dict_get_def)
    next
      case (Some subtree)
      have sub: "dict_get children val = Inr subtree" using Some by (simp add: dict_get_def)
      have ne: "visited subtree example \<noteq> []" by (cases subtree) simp_all
      from "2.IH" [OF Inr sub] Inr Some sub ne show ?thesis by simp
    qed
  qed
qed

text \<open>
  \<^bold>\<open>C5.\<close> \<^verbatim>\<open>classify\<close> returns the class of a leaf; at a node it reads the example's value at
  the test attribute, looks it up in the children and goes on in that child. It ends with
  KeyError exactly when some visited node has no child under the example's value at its
  test attribute; in that case it returns no class at all, and whenever it returns a class
  it is the class of the leaf at the end of the walk. (A row too short for the test
  attribute has no value to look up: that is the separate IndexError.)
\<close>

theorem classify_lookup:
  "classify (Leaf pred_class) example = Inr pred_class
   \<and> classify (Node test_attr test_name children) example =
       (case get_item example test_attr of
          Inl e \<Rightarrow> Inl e
        | Inr val \<Rightarrow>
            (case map_of children val of
               None \<Rightarrow> Inl KeyError
             | Some subtree \<Rightarrow> classify subtree example))
   \<and> (classify t example = Inl KeyError \<longleftrightarrow> unseen_branch t example)
   \<and> (unseen_branch t example \<longrightarrow> (\<forall>c. classify t example \<noteq> Inr c))
   \<and> (classify t example = Inr c \<longleftrightarrow> last (visited t example) = Leaf c)"
  using classify_KeyError_iff [of t example] classify_Inr_iff [of t example c]
  by (auto simp: dict_get_def split: sum.splits option.splits)

theorem classify_lookup_witness:
  "unseen_branch (Node 0 ''vote0'' [(''Yea'', Leaf ''Republicans''), (''Nay'', Leaf ''Democrats'')])
     [''Absent'', ''democrat'']
   \<and> classify (Node 0 ''vote0'' [(''Yea'', Leaf ''Republicans''), (''Nay'', Leaf ''Democrats'')])
       [''Absent'', ''democrat''] = Inl KeyError
   \<and> classify (Node 0 ''vote0'' [(''Yea'', Leaf ''Republicans''), (''Nay'', Leaf ''Democrats'')])
       [''Nay'', ''democrat''] = Inr ''Democrats''"
  using classify_lookup
    [of "''Democrats''" "[''Nay'', ''democrat'']" 0 "''vote0''"
        "[(''Yea'', Leaf ''Republicans''), (''Nay'', Leaf ''Democrats'')]"
        "Node 0 ''vote0'' [(''Yea'', Leaf ''Republicans''), (''Nay'', Leaf ''Democrats'')]"
        "''Democrats''"]
    classify_lookup
    [of "''Democrats''" "[''Absent'', ''democrat'']" 0 "''vote0''"
        "[(''Yea'', Leaf ''Republicans''), (''Nay'', Leaf ''Democrats'')]"
        "Node 0 ''vote0'' [(''Yea'', Leaf ''Republicans''), (''Nay'', Leaf ''Democrats'')]"
        "''Democrats''"]
  by (simp add: unseen_branch_def get_item_def dict_get_def)

subsection \<open>The shape of an induced tree\<close>

lemma built_node:
  "test_name \<noteq> [] \<Longrightarrow>
     add_child (add_child (new_Node A test_name) ''Yea'' subtree0) ''Nay'' subtree1
       = Node A test_name [(''Yea'', subtree0), (''Nay'', subtree1)]"
  by (simp add: new_Node_def)

lemma plurality_value_Inr: "plurality_value target es = Inr t \<Longrightarrow> \<exists>c. t = Leaf c"
  by (auto simp: plurality_value_def split: sum.splits prod.splits if_splits)

lemma same_classification_Some:
  "same_classification target es = Inr (Some t) \<Longrightarrow> \<exists>c. t = Leaf c"
  by (auto simp: same_classification_def split: sum.splits prod.splits if_splits)

lemma decision_tree_learning_Inr_cases:
  assumes "decision_tree_learning target es attrs parent_examples depth = Inr t"
  obtains (leaf) c where "t = Leaf c"
  | (node) A temp_attrs subtree0 subtree1 where
      "depth \<noteq> 0" "es \<noteq> []" "attrs \<noteq> []"
      "same_classification target es = Inr None"
      "argmax target attrs es = Inr A"
      "split A es = Inr [filter (is_affirmative A) es, filter (\<lambda>exs. \<not> is_affirmative A exs) es]"
      "list_remove attrs A = Inr temp_attrs"
      "decision_tree_learning target (filter (is_affirmative A) es) temp_attrs es (depth - 1)
         = Inr subtree0"
      "decision_tree_learning target (filter (\<lambda>exs. \<not> is_affirmative A exs) es) temp_attrs es
         (depth - 1) = Inr subtree1"
      "t = Node A (''vote'' @ str_nat A) [(''Yea'', subtree0), (''Nay'', subtree1)]"
proof (cases "depth = 0 \<or> es = []")
  note eq = decision_tree_learning.simps [of target es attrs parent_examples depth]
  case True
  with assms have "\<exists>c. t = Leaf c"
    by (auto simp: eq dest: plurality_value_Inr split: if_splits)
  with leaf show ?thesis by blast
next
  note eq = decision_tree_learning.simps [of target es attrs parent_examples depth]
  case False
  then have d: "depth \<noteq> 0" and e: "es \<noteq> []" by simp_all
  show ?thesis
  proof (cases "same_classification target es")
    case (Inl err)
    with assms d e show ?thesis by (simp add: eq)
  next
    case (Inr r)
    show ?thesis
    proof (cases r)
      case (Some l)
      with assms d e Inr have "t = l" by (simp add: eq)
      with Inr Some same_classification_Some leaf show ?thesis by blast
    next
      case None
      show ?thesis
      proof (cases "attrs = []")
        case True
        with assms [unfolded eq] d e Inr None have "plurality_value target es = Inr t"
          by simp
        with plurality_value_Inr leaf show ?thesis by blast
      next
        case False
        from assms d e Inr None False obtain A parts0 temp_attrs subtree0 subtree1 where
          am: "argmax target attrs es = Inr A" and sp: "split A es = Inr parts0"
          and rm: "list_remove attrs A = Inr temp_attrs"
          and s0: "decision_tree_learning target (parts0 ! 0) temp_attrs es (depth - 1) = Inr subtree0"
          and s1: "decision_tree_learning target (parts0 ! 1) temp_attrs es (depth - 1) = Inr subtree1"
          and t: "t = Node A (''vote'' @ str_nat A) [(''Yea'', subtree0), (''Nay'', subtree1)]"
          by (auto simp: eq built_node get_item_def split: sum.splits if_splits)
        from split_Inr(1) [OF sp] have p: "parts0 = [filter (is_affirmative A) es,
                  filter (\<lambda>exs. \<not> is_affirmative A exs) es]" .
        show ?thesis
          using node [OF d e False _ am _ rm _ _ t] Inr None sp s0 s1 unfolding p by simp
      qed
    qed
  qed
qed

lemma decision_tree_learning_two_children:
  "decision_tree_learning target es attrs parent_examples depth = Inr t \<Longrightarrow> two_children t"
proof (induction attrs arbitrary: es parent_examples depth t rule: length_induct)
  case (1 attrs)
  from "1.prems" show ?case
  proof (cases rule: decision_tree_learning_Inr_cases)
    case (leaf c)
    then show ?thesis by simp
  next
    case (node A temp_attrs subtree0 subtree1)
    from node(7) have "length temp_attrs < length attrs" by (rule list_remove_length)
    with "1.IH" node(8,9) have "two_children subtree0" "two_children subtree1" by blast+
    with node(10) show ?thesis by simp
  qed
qed

text \<open>
  \<^bold>\<open>C4.\<close> Every node of a tree that \<^verbatim>\<open>decision_tree_learning\<close> returns has exactly the two
  children \<^verbatim>\<open>"Yea"\<close> and \<^verbatim>\<open>"Nay"\<close>, in this order. The tree is returned only after both
  calls of \<^verbatim>\<open>add_child\<close>, so no node is classified with before it has both. An empty
  partition makes no difference: its child is the plurality leaf of the parent examples.
\<close>

theorem induced_nodes_two_children:
  assumes "decision_tree_learning target es attrs parent_examples depth = Inr t"
  shows "two_children t"
  using assms by (rule decision_tree_learning_two_children)

text \<open>Both rows have \<^verbatim>\<open>Yea\<close>, so the negative partition is empty.\<close>

theorem induced_nodes_two_children_witness:
  "decision_tree_learning 1 [[''Yea'', ''republican''], [''Yea'', ''democrat'']] [0] [] 2
     = Inr (Node 0 ''vote0'' [(''Yea'', Leaf ''Democrats''), (''Nay'', Leaf ''Democrats'')])
   \<and> split 0 [[''Yea'', ''republican''], [''Yea'', ''democrat'']]
       = Inr [[[''Yea'', ''republican''], [''Yea'', ''democrat'']], []]
   \<and> two_children (Node 0 ''vote0'' [(''Yea'', Leaf ''Democrats''), (''Nay'', Leaf ''Democrats'')])"
proof -
  have run: "decision_tree_learning 1 [[''Yea'', ''republican''], [''Yea'', ''democrat'']] [0] [] 2
     = Inr (Node 0 ''vote0'' [(''Yea'', Leaf ''Democrats''), (''Nay'', Leaf ''Democrats'')])"
    by (simp add: decision_tree_learning.simps same_classification_def plurality_value_def
        get_item_def lower_republican lower_democrat argmax_def split_def information_gain_def
        entropy_def Let_def str_nat_0 new_Node_def)
  have parts: "split 0 [[''Yea'', ''republican''], [''Yea'', ''democrat'']]
       = Inr [[[''Yea'', ''republican''], [''Yea'', ''democrat'']], []]"
    by (simp add: split_def get_item_def)
  from induced_nodes_two_children [OF run] run parts show ?thesis by blast
qed

subsection \<open>No division by zero\<close>

text \<open>Which errors the primitives and loops can end with.\<close>

lemma entropy_ZeroDivisionError_iff:
  "entropy target es = Inl ZeroDivisionError \<longleftrightarrow> es = []"
proof (cases "count_classes target es 0 0")
  case (Inl e)
  then have "e = IndexError" by (rule count_classes_error)
  moreover from Inl have "es \<noteq> []" by (cases es) auto
  ultimately show ?thesis using Inl by (simp add: entropy_def)
next
  case (Inr c)
  obtain r d where c: "c = (r, d)" by (cases c)
  from count_classes_total [OF Inr [unfolded c]] have "r + d = length es" by simp
  then show ?thesis using Inr c by (auto simp: entropy_def Let_def)
qed

lemma plurality_value_no_ZeroDivisionError:
  "plurality_value target es \<noteq> Inl ZeroDivisionError"
  by (auto simp: plurality_value_def split: sum.splits prod.splits dest: count_classes_error)

lemma same_classification_no_ZeroDivisionError:
  "same_classification target es \<noteq> Inl ZeroDivisionError"
  by (auto simp: same_classification_def split: sum.splits prod.splits dest: count_classes_error)

lemma split_no_ZeroDivisionError: "split attribute es \<noteq> Inl ZeroDivisionError"
  by (auto simp: split_def dest: split_loop_error)

lemma information_gain_loop_no_ZeroDivisionError:
  "parent \<noteq> [] \<Longrightarrow>
     information_gain_loop target parent children e_children \<noteq> Inl ZeroDivisionError"
proof (induction children arbitrary: e_children)
  case Nil
  then show ?case by simp
next
  case (Cons child children)
  then show ?case
    using entropy_ZeroDivisionError_iff [of target child]
    by (cases "entropy target child") auto
qed

lemma information_gain_no_ZeroDivisionError:
  "parent \<noteq> [] \<Longrightarrow> information_gain target parent children \<noteq> Inl ZeroDivisionError"
  using information_gain_loop_no_ZeroDivisionError [of parent target children 0]
    entropy_ZeroDivisionError_iff [of target parent]
  by (auto simp: information_gain_def split: sum.splits)

lemma argmax_loop_no_ZeroDivisionError:
  "es \<noteq> [] \<Longrightarrow> argmax_loop target attribute_list es entropy_attr \<noteq> Inl ZeroDivisionError"
proof (induction attribute_list arbitrary: entropy_attr)
  case Nil
  then show ?case by simp
next
  case (Cons attribute attribute_list)
  then show ?case
    using split_no_ZeroDivisionError [of attribute es]
      information_gain_no_ZeroDivisionError [of es target]
    by (auto split: sum.splits)
qed

lemma list_index_error: "list_index xs x = Inl e \<Longrightarrow> e = ValueError"
  by (induction xs) (auto split: if_splits sum.splits)

lemma list_remove_error: "list_remove xs x = Inl e \<Longrightarrow> e = ValueError"
  by (induction xs) (auto split: if_splits sum.splits)

lemma py_max_error: "py_max xs = Inl e \<Longrightarrow> e = ValueError"
  by (cases xs) auto

lemma get_item_error: "get_item xs i = Inl e \<Longrightarrow> e = IndexError"
  by (auto simp: get_item_def split: if_splits)

lemma argmax_no_ZeroDivisionError:
  "es \<noteq> [] \<Longrightarrow> argmax target attribute_list es \<noteq> Inl ZeroDivisionError"
  using argmax_loop_no_ZeroDivisionError [of es target attribute_list "[]"]
  by (auto simp: argmax_def split: sum.splits
      dest: py_max_error list_index_error get_item_error)

lemma decision_tree_learning_no_ZeroDivisionError:
  "decision_tree_learning target es attrs parent_examples depth \<noteq> Inl ZeroDivisionError"
proof (induction target es attrs parent_examples depth rule: decision_tree_learning.induct)
  case (1 target examples attrs parent_examples depth)
  note eq = decision_tree_learning.simps [of target examples attrs parent_examples depth]
  show ?case
  proof (cases "depth = 0 \<or> examples = []")
    case True
    then show ?thesis
      using plurality_value_no_ZeroDivisionError by (auto simp: eq)
  next
    case False
    then have ne: "examples \<noteq> []" and d: "depth \<noteq> 0" by simp_all
    show ?thesis
      unfolding eq
      using d ne "1.IH" plurality_value_no_ZeroDivisionError [of target examples]
        same_classification_no_ZeroDivisionError [of target examples]
        argmax_no_ZeroDivisionError [OF ne, of target attrs]
        split_no_ZeroDivisionError
      by (auto split: sum.splits option.splits
          dest: get_item_error list_remove_error)
  qed
qed

lemma feature_indexes_error: "feature_indexes names fs = Inl e \<Longrightarrow> e = ValueError"
  by (induction fs arbitrary: e) (auto split: sum.splits dest: list_index_error)

text \<open>
  \<^bold>\<open>C9.\<close> \<^verbatim>\<open>entropy\<close> divides by zero exactly on the empty list, and an error is never caught,
  so a run in which \<^verbatim>\<open>entropy\<close> is applied to an empty list ends with ZeroDivisionError.
  No run of \<^verbatim>\<open>decision_tree_learning\<close> or \<^verbatim>\<open>learn_decision_tree\<close> ends so, for any input.
\<close>

theorem induction_no_ZeroDivisionError:
  "(entropy target es = Inl ZeroDivisionError \<longleftrightarrow> es = [])
   \<and> decision_tree_learning target es attrs parent_examples depth \<noteq> Inl ZeroDivisionError
   \<and> learn_decision_tree dataset target_name feature_names depth_limit \<noteq> Inl ZeroDivisionError"
  using entropy_ZeroDivisionError_iff [of target es]
    decision_tree_learning_no_ZeroDivisionError
  by (auto simp: learn_decision_tree_def split: sum.splits
      dest: list_index_error feature_indexes_error)

subsection \<open>Termination\<close>

text \<open>The call relation of the recursion, and why it is well-founded.\<close>

lemma decision_tree_learning_rel_shorter:
  assumes "decision_tree_learning_rel (target', es', attrs', parent', depth')
          (target, es, attrs, parent_examples, depth)"
  shows "(\<exists>A. argmax target attrs es = Inr A \<and> list_remove attrs A = Inr attrs')
        \<and> length attrs' < length attrs \<and> depth' = depth - 1"
  using assms
proof (cases rule: decision_tree_learning_rel.cases)
  case 1
  then show ?thesis by (blast dest: list_remove_length)
next
  case 2
  then show ?thesis by (blast dest: list_remove_length)
qed

lemma decision_tree_learning_rel_wfp: "wfp decision_tree_learning_rel"
proof (rule wfp_if_convertible_to_nat)
  fix x y :: "nat \<times> example list \<times> nat list \<times> example list \<times> int"
  assume call: "decision_tree_learning_rel x y"
  obtain target' es' attrs' parent' depth' where x: "x = (target', es', attrs', parent', depth')"
    by (cases x)
  obtain target es attrs parent_examples depth where
    y: "y = (target, es, attrs, parent_examples, depth)"
    by (cases y)
  from decision_tree_learning_rel_shorter [OF call [unfolded x y]]
  show "length (fst (snd (snd x))) < length (fst (snd (snd y)))"
    by (simp add: x y)
qed

text \<open>
  \<^bold>\<open>C10.\<close> \<^verbatim>\<open>decision_tree_learning\<close> terminates on every input (every argument tuple is in
  the accessible part of its call relation), whatever the depth, zero and negative included:
  each recursive call is made with the attribute list from which \<^verbatim>\<open>remove\<close> has dropped the
  attribute chosen by \<^verbatim>\<open>argmax\<close>, which is strictly shorter, and with the depth decreased
  by 1.
\<close>

theorem decision_tree_learning_terminates:
  "decision_tree_learning_dom (target, es, attrs, parent_examples, depth)
   \<and> (\<forall>target' es' attrs' parent' depth'.
        decision_tree_learning_rel (target', es', attrs', parent', depth')
          (target, es, attrs, parent_examples, depth) \<longrightarrow>
        (\<exists>A. argmax target attrs es = Inr A \<and> list_remove attrs A = Inr attrs')
        \<and> length attrs' < length attrs \<and> depth' = depth - 1)"
proof (intro conjI allI impI)
  show "decision_tree_learning_dom (target, es, attrs, parent_examples, depth)"
    using decision_tree_learning_rel_wfp by (rule accp_wfpD)
qed (use decision_tree_learning_rel_shorter in blast)+

lemma decision_tree_learning_rel_instance:
  "decision_tree_learning_rel
       (1, [[''Yea'', ''republican'']], [], [[''Yea'', ''republican''], [''Nay'', ''democrat'']], 3 - 1)
       (1, [[''Yea'', ''republican''], [''Nay'', ''democrat'']], [0], [], 3)"
    by (rule decision_tree_learning_rel.intros(1)
          [where b = None and ba = 0
             and bb = "[[[''Yea'', ''republican'']], [[''Nay'', ''democrat'']]]"])
       (simp_all add: same_classification_def get_item_def lower_republican lower_democrat
          argmax_def split_def information_gain_def entropy_def Let_def)


theorem decision_tree_learning_terminates_witness:
  "decision_tree_learning_dom
     (1, [[''Yea'', ''republican''], [''Nay'', ''democrat'']], [0], [], 3)
   \<and> decision_tree_learning_rel
       (1, [[''Yea'', ''republican'']], [], [[''Yea'', ''republican''], [''Nay'', ''democrat'']], 2)
       (1, [[''Yea'', ''republican''], [''Nay'', ''democrat'']], [0], [], 3)
   \<and> length ([] :: nat list) < length [0 :: nat] \<and> (2 :: int) = 3 - 1"
proof -
  have two: "(3 :: int) - 1 = 2" by simp
  note call = decision_tree_learning_rel_instance [unfolded two]
  note total = decision_tree_learning_terminates
      [of 1 "[[''Yea'', ''republican''], [''Nay'', ''democrat'']]" "[0]" "[]" 3]
  from total have dom: "decision_tree_learning_dom
     (1, [[''Yea'', ''republican''], [''Nay'', ''democrat'']], [0], [], 3)"
    by (rule conjunct1)
  from total call have "length ([] :: nat list) < length [0 :: nat] \<and> (2 :: int) = 3 - 1"
    by blast
  with dom call show ?thesis by blast
qed

subsection \<open>The scenario with the single feature voteX\<close>

lemmas eval_simps =
  learn_decision_tree_def decision_tree_learning.simps same_classification_def
  plurality_value_def get_item_def lower_republican lower_democrat argmax_def split_def
  information_gain_def entropy_def Let_def str_nat_0 new_Node_def dict_get_def

text \<open>
  \<^bold>\<open>C3.\<close> The claim as stated fails: each value of \<^verbatim>\<open>voteX\<close> has one republican and one
  democrat, so neither branch is pure, and a tie of \<^verbatim>\<open>plurality_value\<close> is
  \<^verbatim>\<open>Leaf("Democrats")\<close>. With depth limit 1 the child under \<^verbatim>\<open>"Yea"\<close> is not
  \<^verbatim>\<open>Leaf("Republicans")\<close>.
\<close>

theorem voteX_scenario_counterexample:
  "learn_decision_tree voteX_dataset ''class'' [''voteX''] 1 =
     Inr (Node 0 ''vote0'' [(''Yea'', Leaf ''Democrats''), (''Nay'', Leaf ''Democrats'')])
   \<and> dict_get [(''Yea'', Leaf ''Democrats''), (''Nay'', Leaf ''Democrats'')] ''Yea''
       \<noteq> Inr (Leaf ''Republicans'')"
  by (simp add: voteX_dataset_def eval_simps)

text \<open>
  \<^bold>\<open>C3, amended.\<close> On that dataset, induction with depth limit at least 1 and feature list
  \<^verbatim>\<open>["voteX"]\<close> returns the node testing \<^verbatim>\<open>voteX\<close> (column 0) whose children under \<^verbatim>\<open>"Yea"\<close>
  and under \<^verbatim>\<open>"Nay"\<close> are both \<^verbatim>\<open>Leaf("Democrats")\<close>.
\<close>

theorem voteX_scenario_tree:
  assumes "1 \<le> depth_limit"
  shows "learn_decision_tree voteX_dataset ''class'' [''voteX''] depth_limit =
     Inr (Node 0 ''vote0'' [(''Yea'', Leaf ''Democrats''), (''Nay'', Leaf ''Democrats'')])"
proof (cases "depth_limit = 1")
  case True
  then show ?thesis by (simp add: voteX_dataset_def eval_simps)
next
  case False
  with assms have "depth_limit \<noteq> 0" "depth_limit - 1 \<noteq> 0" by simp_all
  then show ?thesis by (simp add: voteX_dataset_def eval_simps)
qed

theorem voteX_scenario_tree_witness:
  "(1 :: int) \<le> 3
   \<and> learn_decision_tree voteX_dataset ''class'' [''voteX''] 3 =
       Inr (Node 0 ''vote0'' [(''Yea'', Leaf ''Democrats''), (''Nay'', Leaf ''Democrats'')])"
proof -
  have h: "(1 :: int) \<le> 3" by simp
  from voteX_scenario_tree [OF h] h show ?thesis by blast
qed

subsection \<open>Classifying a training example\<close>

text \<open>Where the round trip does hold: on a row whose value at every candidate attribute is
  \<^verbatim>\<open>Yea\<close> or \<^verbatim>\<open>Nay\<close>, classification succeeds and returns the class of the leaf that
  the training split routes the row to.\<close>

lemma classify_follows_routing:
  assumes "\<forall>a \<in> tested_attrs t. a < length example
             \<and> (example ! a = ''Yea'' \<or> example ! a = ''Nay'')"
  shows "classify t example = routed_leaf t example"
  using assms
proof (induction t example rule: classify.induct)
  case (1 pred_class example)
  then show ?case by simp
next
  case (2 test_attr test_name children example)
  from "2.prems" have len: "test_attr < length example"
    and val: "example ! test_attr = ''Yea'' \<or> example ! test_attr = ''Nay''"
    by simp_all
  have get: "get_item example test_attr = Inr (example ! test_attr)"
    using len by (simp add: get_item_def)
  have key: "(if is_affirmative test_attr example then ''Yea'' else ''Nay'') = example ! test_attr"
    using val by (auto simp: is_affirmative_def)
  show ?case
  proof (cases "dict_get children (example ! test_attr)")
    case (Inl e)
    with get key show ?thesis by simp
  next
    case (Inr subtree)
    then have "(example ! test_attr, subtree) \<in> set children"
      by (auto simp: dict_get_def split: option.splits dest: map_of_SomeD)
    then have "tested_attrs subtree \<subseteq> tested_attrs (Node test_attr test_name children)"
      by force
    with "2.prems" have "\<forall>a \<in> tested_attrs subtree. a < length example
             \<and> (example ! a = ''Yea'' \<or> example ! a = ''Nay'')"
      by blast
    from "2.IH" [OF get Inr this] get key Inr show ?thesis by simp
  qed
qed

lemma list_remove_set:
  "list_remove xs x = Inr ys \<Longrightarrow> x \<in> set xs \<and> set ys \<subseteq> set xs"
  by (induction xs arbitrary: ys) (auto split: if_splits sum.splits)

lemma decision_tree_learning_tested_attrs:
  "decision_tree_learning target es attrs parent_examples depth = Inr t \<Longrightarrow>
     tested_attrs t \<subseteq> set attrs"
proof (induction attrs arbitrary: es parent_examples depth t rule: length_induct)
  case (1 attrs)
  from "1.prems" show ?case
  proof (cases rule: decision_tree_learning_Inr_cases)
    case (leaf c)
    then show ?thesis by simp
  next
    case (node A temp_attrs subtree0 subtree1)
    from node(7) have shorter: "length temp_attrs < length attrs" by (rule list_remove_length)
    from node(7) have mem: "A \<in> set attrs" and sub: "set temp_attrs \<subseteq> set attrs"
      by (auto dest: list_remove_set)
    from "1.IH" shorter node(8,9)
    have "tested_attrs subtree0 \<subseteq> set temp_attrs" "tested_attrs subtree1 \<subseteq> set temp_attrs"
      by blast+
    with mem sub node(10) show ?thesis by auto
  qed
qed

lemma routed_leaf_two_children:
  "two_children t \<Longrightarrow> \<exists>c. routed_leaf t example = Inr c"
proof (induction t example rule: routed_leaf.induct)
  case (1 pred_class example)
  then show ?case by simp
next
  case (2 test_attr test_name children example)
  from "2.prems" obtain subtree0 subtree1 where
    ch: "children = [(''Yea'', subtree0), (''Nay'', subtree1)]"
    and tc: "two_children subtree0" "two_children subtree1"
    by (cases children; cases "tl children"; cases "tl (tl children)") auto
  show ?case
  proof (cases "is_affirmative test_attr example")
    case True
    have "dict_get children ''Yea'' = Inr subtree0" by (simp add: ch dict_get_def)
    with "2.IH" [of subtree0] tc True show ?thesis by simp
  next
    case False
    have "dict_get children ''Nay'' = Inr subtree1" by (simp add: ch dict_get_def)
    with "2.IH" [of subtree1] tc False show ?thesis by simp
  qed
qed

lemma training_round_trip_Yea_Nay:
  assumes run: "decision_tree_learning target es attrs parent_examples depth = Inr t"
    and vals: "\<forall>a \<in> set attrs. a < length example
                 \<and> (example ! a = ''Yea'' \<or> example ! a = ''Nay'')"
  shows "classify t example = routed_leaf t example \<and> (\<exists>c. classify t example = Inr c)"
proof -
  from decision_tree_learning_tested_attrs [OF run] vals
  have "\<forall>a \<in> tested_attrs t. a < length example
             \<and> (example ! a = ''Yea'' \<or> example ! a = ''Nay'')"
    by blast
  then have eq: "classify t example = routed_leaf t example"
    by (rule classify_follows_routing)
  from decision_tree_learning_two_children [OF run]
  have "\<exists>c. routed_leaf t example = Inr c" by (rule routed_leaf_two_children)
  with eq show ?thesis by simp
qed

lemma routed_leaf_partition:
  assumes "decision_tree_learning target es attrs parent_examples depth
             = Inr (Node A test_name children)"
  shows "\<exists>temp_attrs subtree0 subtree1.
           decision_tree_learning target (filter (is_affirmative A) es) temp_attrs es (depth - 1)
             = Inr subtree0
           \<and> decision_tree_learning target (filter (\<lambda>exs. \<not> is_affirmative A exs) es)
               temp_attrs es (depth - 1) = Inr subtree1
           \<and> routed_leaf (Node A test_name children) example =
               (if is_affirmative A example then routed_leaf subtree0 example
                else routed_leaf subtree1 example)"
  using assms
proof (cases rule: decision_tree_learning_Inr_cases)
  case (leaf c)
  then show ?thesis by simp
next
  case (node A' temp_attrs subtree0 subtree1)
  from node(10) have "A' = A" "children = [(''Yea'', subtree0), (''Nay'', subtree1)]"
    by simp_all
  with node(8,9) show ?thesis
    by (intro exI [of _ temp_attrs] exI [of _ subtree0] exI [of _ subtree1])
       (simp add: dict_get_def)
qed

text \<open>
  \<^bold>\<open>C1.\<close> The round trip breaks on a training row whose value at the tested attribute is
  \<^verbatim>\<open>Present\<close>: \<^verbatim>\<open>split\<close> routes the row to the affirmative partition, the node stores that
  subtree under \<^verbatim>\<open>"Yea"\<close>, and \<^verbatim>\<open>classify\<close> looks the row's own value up and ends with
  KeyError.
\<close>

theorem classify_training_example_KeyError:
  "learn_decision_tree present_dataset ''class'' [''vote0''] 5 =
     Inr (Node 0 ''vote0'' [(''Yea'', Leaf ''Republicans''), (''Nay'', Leaf ''Democrats'')])
   \<and> [''Present'', ''republican''] \<in> set (DataSet.examples present_dataset)
   \<and> split 0 (DataSet.examples present_dataset)
       = Inr [[[''Present'', ''republican'']], [[''Nay'', ''democrat'']]]
   \<and> routed_leaf (Node 0 ''vote0'' [(''Yea'', Leaf ''Republicans''), (''Nay'', Leaf ''Democrats'')])
       [''Present'', ''republican''] = Inr ''Republicans''
   \<and> classify (Node 0 ''vote0'' [(''Yea'', Leaf ''Republicans''), (''Nay'', Leaf ''Democrats'')])
       [''Present'', ''republican''] = Inl KeyError"
  by (simp add: present_dataset_def eval_simps is_affirmative_def)

subsection \<open>Information gain in exact arithmetic\<close>

text \<open>
  The model computes entropies and gains over the real numbers, where Python computes in
  double precision. The lemmas of this subsection are about the exact values: the gain is
  the entropy of the parent minus the weighted entropies of the non-empty partitions, and
  the gain of a split is not negative. They say nothing about the rounding of the doubles.
\<close>

lemma gain_term:
  fixes x m t n :: real
  assumes "0 \<le> x" "x \<le> m" "x \<le> t" "0 < n"
  shows "(x - m * t / n) / ln 2 \<le> x * (log 2 (x / m) - log 2 (t / n))"
proof (cases "x = 0")
  case True
  have "0 \<le> m * t / n" using assms True by simp
  moreover have "0 < ln (2 :: real)" by simp
  ultimately have "(0 - m * t / n) / ln 2 \<le> 0"
    by (intro divide_nonpos_pos) simp_all
  with True show ?thesis by simp
next
  case False
  with assms have x: "0 < x" and m: "0 < m" and t: "0 < t" by linarith+
  define u where "u = (x * n) / (m * t)"
  have u: "0 < u" using x m t assms(4) by (simp add: u_def)
  have ln2: "0 < ln (2 :: real)" by simp
  have "log 2 (x / m) - log 2 (t / n) = log 2 ((x / m) / (t / n))"
    using x m t assms(4) by (simp add: log_divide log_mult)
  also have "(x / m) / (t / n) = u" by (simp add: u_def)
  finally have eq: "log 2 (x / m) - log 2 (t / n) = ln u / ln 2" by (simp add: log_def)
  have "ln (1 / u) \<le> 1 / u - 1" using u by (intro ln_le_minus_one) simp
  then have "1 - 1 / u \<le> ln u" using u by (simp add: ln_div)
  then have "x * (1 - 1 / u) \<le> x * ln u" using x by (simp add: mult_left_mono)
  moreover have "x * (1 - 1 / u) = x - m * t / n"
    using x m t assms(4) by (simp add: u_def field_simps)
  ultimately have "x - m * t / n \<le> x * ln u" by simp
  then have "(x - m * t / n) / ln 2 \<le> (x * ln u) / ln 2"
    using ln2 by (simp add: divide_right_mono)
  with eq show ?thesis by simp
qed


lemma count_sum: "republican_count target es + democrat_count target es = length es"
  by (simp add: republican_count_def democrat_count_def sum_length_filter_compl)

lemma plogp_eq: "plogp p = p * log 2 p"
  by (simp add: plogp_def)

lemma entropy_value:
  assumes rows: "\<forall>exs \<in> set es. target < length exs" and ne: "es \<noteq> []"
  shows "entropy target es = Inr (binary_entropy target es)"
proof -
  have n: "republican_count target es + democrat_count target es = length es"
    by (rule count_sum)
  with ne have pos: "republican_count target es + democrat_count target es \<noteq> 0" by simp
  show ?thesis
    using count_classes_counts [OF rows, of 0 0] pos
    by (simp add: entropy_def binary_entropy_def Let_def plogp_def n [symmetric])
qed

lemma information_gain_loop_value:
  assumes "parent \<noteq> []"
    and "\<forall>child \<in> set children. \<forall>exs \<in> set child. target < length exs"
  shows "information_gain_loop target parent children acc =
           Inr (acc + weighted_entropies target parent children)"
  using assms(2)
proof (induction children arbitrary: acc)
  case Nil
  then show ?case by (simp add: weighted_entropies_def)
next
  case (Cons child children)
  show ?case
  proof (cases "child = []")
    case True
    with Cons show ?thesis by (simp add: weighted_entropies_def)
  next
    case False
    from Cons.prems have "\<forall>exs \<in> set child. target < length exs" by simp
    from entropy_value [OF this False] Cons False assms(1) show ?thesis
      by (simp add: weighted_entropies_def add.assoc)
  qed
qed

lemma information_gain_value:
  assumes "parent \<noteq> []" and "\<forall>exs \<in> set parent. target < length exs"
    and "\<forall>child \<in> set children. \<forall>exs \<in> set child. target < length exs"
  shows "information_gain target parent children =
           Inr (binary_entropy target parent - weighted_entropies target parent children)"
  using information_gain_loop_value [OF assms(1,3), of 0] entropy_value [OF assms(2,1)]
  by (simp add: information_gain_def)

lemma split_gain_sum_nonneg:
  fixes r1 d1 r2 d2 :: real
  assumes "0 \<le> r1" "0 \<le> d1" "0 \<le> r2" "0 \<le> d2" and "0 < r1 + d1 + r2 + d2"
  shows "0 \<le> r1 * (log 2 (r1 / (r1 + d1)) - log 2 ((r1 + r2) / (r1 + d1 + r2 + d2)))
             + d1 * (log 2 (d1 / (r1 + d1)) - log 2 ((d1 + d2) / (r1 + d1 + r2 + d2)))
             + r2 * (log 2 (r2 / (r2 + d2)) - log 2 ((r1 + r2) / (r1 + d1 + r2 + d2)))
             + d2 * (log 2 (d2 / (r2 + d2)) - log 2 ((d1 + d2) / (r1 + d1 + r2 + d2)))"
proof -
  define n where "n = r1 + d1 + r2 + d2"
  have n: "0 < n" using assms(5) by (simp add: n_def)
  have t1: "(r1 - (r1 + d1) * (r1 + r2) / n) / ln 2
              \<le> r1 * (log 2 (r1 / (r1 + d1)) - log 2 ((r1 + r2) / n))"
    using assms n by (intro gain_term) simp_all
  have t2: "(d1 - (r1 + d1) * (d1 + d2) / n) / ln 2
              \<le> d1 * (log 2 (d1 / (r1 + d1)) - log 2 ((d1 + d2) / n))"
    using assms n by (intro gain_term) simp_all
  have t3: "(r2 - (r2 + d2) * (r1 + r2) / n) / ln 2
              \<le> r2 * (log 2 (r2 / (r2 + d2)) - log 2 ((r1 + r2) / n))"
    using assms n by (intro gain_term) simp_all
  have t4: "(d2 - (r2 + d2) * (d1 + d2) / n) / ln 2
              \<le> d2 * (log 2 (d2 / (r2 + d2)) - log 2 ((d1 + d2) / n))"
    using assms n by (intro gain_term) simp_all
  have "(r1 + d1) * (r1 + r2) + (r1 + d1) * (d1 + d2) + (r2 + d2) * (r1 + r2)
          + (r2 + d2) * (d1 + d2) = n * n"
    by (simp add: n_def algebra_simps)
  then have "((r1 + d1) * (r1 + r2) + (r1 + d1) * (d1 + d2) + (r2 + d2) * (r1 + r2)
          + (r2 + d2) * (d1 + d2)) / n = n"
    using n by simp
  then have "(r1 + d1) * (r1 + r2) / n + (r1 + d1) * (d1 + d2) / n + (r2 + d2) * (r1 + r2) / n
          + (r2 + d2) * (d1 + d2) / n = r1 + d1 + r2 + d2"
    by (simp add: add_divide_distrib n_def)
  then have "(r1 - (r1 + d1) * (r1 + r2) / n) + (d1 - (r1 + d1) * (d1 + d2) / n)
          + (r2 - (r2 + d2) * (r1 + r2) / n) + (d2 - (r2 + d2) * (d1 + d2) / n) = 0"
    by linarith
  then have "(r1 - (r1 + d1) * (r1 + r2) / n) / ln 2 + (d1 - (r1 + d1) * (d1 + d2) / n) / ln 2
          + (r2 - (r2 + d2) * (r1 + r2) / n) / ln 2 + (d2 - (r2 + d2) * (d1 + d2) / n) / ln 2 = 0"
    by (simp add: add_divide_distrib [symmetric])
  with t1 t2 t3 t4 show ?thesis unfolding n_def by linarith
qed

lemma count_filter_partition:
  "length (filter Q xs) =
     length (filter Q (filter P xs)) + length (filter Q (filter (\<lambda>x. \<not> P x) xs))"
  by (induction xs) simp_all

lemma weight_algebra:
  fixes R D N M a b :: real
  assumes "N \<noteq> 0"
  shows "N / M * (- (R / N * a) - D / N * b) = - (R * a + D * b) / M"
proof -
  have "N * (- (R / N * a) - D / N * b) = - (R * a + D * b)"
    using assms by (simp add: field_simps)
  then have "N * (- (R / N * a) - D / N * b) / M = - (R * a + D * b) / M"
    by simp
  then show ?thesis by (simp only: times_divide_eq_left)
qed

lemma weighted_entropy_counts:
  "(if child = [] then 0
    else real (length child) / real (length parent) * binary_entropy target child)
   = - (real (republican_count target child)
          * log 2 (real (republican_count target child)
                   / (real (republican_count target child)
                      + real (democrat_count target child)))
        + real (democrat_count target child)
          * log 2 (real (democrat_count target child)
                   / (real (republican_count target child)
                      + real (democrat_count target child))))
     / real (length parent)"
proof (cases "child = []")
  case True
  then show ?thesis by (simp add: republican_count_def democrat_count_def)
next
  case False
  have n: "real (republican_count target child) + real (democrat_count target child)
             = real (length child)"
    using count_sum [of target child] by (metis of_nat_add)
  from False have pos: "real (length child) \<noteq> 0" by simp
  have "real (length child) / real (length parent) * binary_entropy target child
        = real (length child) / real (length parent)
          * (- (real (republican_count target child) / real (length child)
                * log 2 (real (republican_count target child) / real (length child)))
             - real (democrat_count target child) / real (length child)
                * log 2 (real (democrat_count target child) / real (length child)))"
    by (simp add: binary_entropy_def Let_def plogp_eq)
  also have "\<dots> = - (real (republican_count target child)
                        * log 2 (real (republican_count target child) / real (length child))
                      + real (democrat_count target child)
                        * log 2 (real (democrat_count target child) / real (length child)))
                    / real (length parent)"
    using pos by (rule weight_algebra)
  finally show ?thesis using False unfolding n by simp
qed

lemma binary_entropy_counts:
  assumes "es \<noteq> []"
  shows "binary_entropy target es
         = - (real (republican_count target es)
                * log 2 (real (republican_count target es) / real (length es))
              + real (democrat_count target es)
                * log 2 (real (democrat_count target es) / real (length es)))
           / real (length es)"
proof -
  from assms have pos: "real (length es) \<noteq> 0" by simp
  have "real (length es) / real (length es) * binary_entropy target es
        = real (length es) / real (length es)
          * (- (real (republican_count target es) / real (length es)
                * log 2 (real (republican_count target es) / real (length es)))
             - real (democrat_count target es) / real (length es)
                * log 2 (real (democrat_count target es) / real (length es)))"
    by (simp add: binary_entropy_def Let_def plogp_eq)
  also have "\<dots> = - (real (republican_count target es)
                        * log 2 (real (republican_count target es) / real (length es))
                      + real (democrat_count target es)
                        * log 2 (real (democrat_count target es) / real (length es)))
                    / real (length es)"
    using pos by (rule weight_algebra)
  finally show ?thesis using pos by simp
qed

lemma split_gain_nonneg:
  assumes ne: "parent \<noteq> []"
  shows "0 \<le> binary_entropy target parent
              - weighted_entropies target parent
                  [filter P parent, filter (\<lambda>exs. \<not> P exs) parent]"
proof -
  define r1 where "r1 = real (republican_count target (filter P parent))"
  define d1 where "d1 = real (democrat_count target (filter P parent))"
  define r2 where "r2 = real (republican_count target (filter (\<lambda>exs. \<not> P exs) parent))"
  define d2 where "d2 = real (democrat_count target (filter (\<lambda>exs. \<not> P exs) parent))"
  define n where "n = real (length parent)"
  have r: "real (republican_count target parent) = r1 + r2"
    unfolding r1_def r2_def republican_count_def
    using count_filter_partition [of "is_republican target" parent P] by simp
  have d: "real (democrat_count target parent) = d1 + d2"
    unfolding d1_def d2_def democrat_count_def
    using count_filter_partition [of "\<lambda>exs. \<not> is_republican target exs" parent P] by simp
  have n: "n = r1 + d1 + r2 + d2"
    using count_sum [of target parent] r d unfolding n_def
    by (metis add.assoc add.left_commute of_nat_add)
  have pos: "0 < n" using ne by (simp add: n_def)
  have nonneg: "0 \<le> r1" "0 \<le> d1" "0 \<le> r2" "0 \<le> d2"
    by (simp_all add: r1_def d1_def r2_def d2_def)
  have w: "weighted_entropies target parent [filter P parent, filter (\<lambda>exs. \<not> P exs) parent]
           = - (r1 * log 2 (r1 / (r1 + d1)) + d1 * log 2 (d1 / (r1 + d1))) / n
             + - (r2 * log 2 (r2 / (r2 + d2)) + d2 * log 2 (d2 / (r2 + d2))) / n"
  proof -
    have "weighted_entropies target parent [filter P parent, filter (\<lambda>exs. \<not> P exs) parent]
          = (if filter P parent = [] then 0
             else real (length (filter P parent)) / real (length parent)
                  * binary_entropy target (filter P parent))
            + (if filter (\<lambda>exs. \<not> P exs) parent = [] then 0
               else real (length (filter (\<lambda>exs. \<not> P exs) parent)) / real (length parent)
                    * binary_entropy target (filter (\<lambda>exs. \<not> P exs) parent))"
      by (simp add: weighted_entropies_def)
    then show ?thesis
      unfolding weighted_entropy_counts r1_def d1_def r2_def d2_def n_def by simp
  qed
  have h: "binary_entropy target parent
           = - ((r1 + r2) * log 2 ((r1 + r2) / n) + (d1 + d2) * log 2 ((d1 + d2) / n)) / n"
    using binary_entropy_counts [OF ne, of target] unfolding r d n_def by simp
  define S where "S = r1 * (log 2 (r1 / (r1 + d1)) - log 2 ((r1 + r2) / n))
             + d1 * (log 2 (d1 / (r1 + d1)) - log 2 ((d1 + d2) / n))
             + r2 * (log 2 (r2 / (r2 + d2)) - log 2 ((r1 + r2) / n))
             + d2 * (log 2 (d2 / (r2 + d2)) - log 2 ((d1 + d2) / n))"
  have "0 \<le> S"
    unfolding S_def n using split_gain_sum_nonneg [OF nonneg] pos n by simp
  moreover have "binary_entropy target parent
              - weighted_entropies target parent
                  [filter P parent, filter (\<lambda>exs. \<not> P exs) parent] = S / n"
    unfolding h w S_def using pos by (simp add: field_simps)
  ultimately show ?thesis using pos by simp
qed

lemma information_gain_split_exact:
  assumes ne: "parent \<noteq> []"
    and target_rows: "\<forall>exs \<in> set parent. target < length exs"
    and attribute_rows: "\<forall>exs \<in> set parent. attribute < length exs"
  shows "\<exists>parts g. split attribute parent = Inr parts
           \<and> information_gain target parent parts = Inr g
           \<and> g = binary_entropy target parent - weighted_entropies target parent parts
           \<and> 0 \<le> g"
proof -
  let ?parts = "[filter (is_affirmative attribute) parent,
                 filter (\<lambda>exs. \<not> is_affirmative attribute exs) parent]"
  have sp: "split attribute parent = Inr ?parts"
    using split_loop_filter [OF attribute_rows, of "[]" "[]"] by (simp add: split_def)
  have "\<forall>child \<in> set ?parts. \<forall>exs \<in> set child. target < length exs"
    using target_rows by simp
  from information_gain_value [OF ne target_rows this]
  have ig: "information_gain target parent ?parts =
              Inr (binary_entropy target parent - weighted_entropies target parent ?parts)" .
  from split_gain_nonneg [OF ne, of target "is_affirmative attribute"]
  have "0 \<le> binary_entropy target parent - weighted_entropies target parent ?parts" .
  with sp ig show ?thesis by blast
qed

end
